theory Spec2Isabelle
  imports Complex_Main "HOL-Library.Sublist"
begin

section \<open>The remaster-rule catalog script\<close>

text \<open>
  The script \<^verbatim>\<open>analyze_remaster_patterns.py\<close> loads a JSON catalog of rewrite rules,
  appends those of the candidate rules \<^verbatim>\<open>additional_patterns\<close> whose key is not yet
  known, bumps the catalog's version and rewrites its description, and saves the
  catalog. Its functions work on whatever \<^verbatim>\<open>json.load\<close> returns, so the embedding
  is over JSON values with Python's dynamic checks written out as error results.
\<close>

subsection \<open>Values\<close>

text \<open>
  A value of \<^verbatim>\<open>json.load\<close>, or of a Python literal built from the same types. A string
  is the byte sequence of its UTF-8 encoding. \<open>JFloat\<close> holds a finite float by its exact
  value (the non-standard \<^verbatim>\<open>NaN\<close> and \<^verbatim>\<open>Infinity\<close> are left out). A \<^verbatim>\<open>dict\<close> is
  an association list in insertion order, with one entry for each key as \<^verbatim>\<open>json.load\<close>
  leaves it (lookup and update go to the first entry of a key).
\<close>

datatype json =
    JNull
  | JBool bool
  | JInt int
  | JFloat rat
  | JStr string
  | JList "json list"
  | JDict "(string \<times> json) list"

datatype py_error = KeyError | TypeError | AttributeError | IndexError | ValueError

text \<open>Python's truth value, as \<^verbatim>\<open>not x\<close> and \<^verbatim>\<open>x and y\<close> take it.\<close>

fun truthy :: "json \<Rightarrow> bool" where
  "truthy JNull = False"
| "truthy (JBool b) = b"
| "truthy (JInt n) = (n \<noteq> 0)"
| "truthy (JFloat q) = (q \<noteq> 0)"
| "truthy (JStr s) = (s \<noteq> [])"
| "truthy (JList xs) = (xs \<noteq> [])"
| "truthy (JDict d) = (d \<noteq> [])"

fun dict_get :: "(string \<times> json) list \<Rightarrow> string \<Rightarrow> json option" where
  "dict_get [] k = None"
| "dict_get ((k', v) # d) k = (if k' = k then Some v else dict_get d k)"

text \<open>\<^verbatim>\<open>d[k] = v\<close>: an existing key keeps its place, a new key goes last.\<close>

fun dict_set :: "string \<Rightarrow> json \<Rightarrow> (string \<times> json) list \<Rightarrow> (string \<times> json) list" where
  "dict_set k v [] = [(k, v)]"
| "dict_set k v ((k', v') # d) = (if k' = k then (k, v) # d else (k', v') # dict_set k v d)"

text \<open>\<^verbatim>\<open>obj[k]\<close> with a string \<open>k\<close>: only a dict takes a string subscript.\<close>

fun getitem :: "json \<Rightarrow> string \<Rightarrow> py_error + json" where
  "getitem (JDict d) k = (case dict_get d k of None \<Rightarrow> Inl KeyError | Some v \<Rightarrow> Inr v)"
| "getitem _ k = Inl TypeError"

text \<open>\<^verbatim>\<open>obj[k1][k2]\<close>.\<close>

definition getitem2 :: "json \<Rightarrow> string \<Rightarrow> string \<Rightarrow> py_error + json" where
  "getitem2 obj k1 k2 = (case getitem obj k1 of Inl e \<Rightarrow> Inl e | Inr v \<Rightarrow> getitem v k2)"

fun setitem :: "json \<Rightarrow> string \<Rightarrow> json \<Rightarrow> py_error + json" where
  "setitem (JDict d) k v = Inr (JDict (dict_set k v d))"
| "setitem _ k v = Inl TypeError"

text \<open>\<^verbatim>\<open>obj.get(k, default)\<close>: a method of dicts only.\<close>

fun py_get :: "json \<Rightarrow> string \<Rightarrow> json \<Rightarrow> py_error + json" where
  "py_get (JDict d) k dflt = (case dict_get d k of None \<Rightarrow> Inr dflt | Some v \<Rightarrow> Inr v)"
| "py_get _ k dflt = Inl AttributeError"

fun substring :: "string \<Rightarrow> string \<Rightarrow> bool" where
  "substring k [] = (k = [])"
| "substring k (c # s) = (prefix k (c # s) \<or> substring k s)"

text \<open>
  \<^verbatim>\<open>k in obj\<close> with a string \<open>k\<close>: a key of a dict, an element of a list, a substring
  of a string; the other types are not containers.
\<close>

fun contains :: "string \<Rightarrow> json \<Rightarrow> py_error + bool" where
  "contains k (JDict d) = Inr (dict_get d k \<noteq> None)"
| "contains k (JList xs) = Inr (JStr k \<in> set xs)"
| "contains k (JStr s) = Inr (substring k s)"
| "contains k _ = Inl TypeError"

fun py_len :: "json \<Rightarrow> py_error + nat" where
  "py_len (JList xs) = Inr (length xs)"
| "py_len (JStr s) = Inr (length s)"
| "py_len (JDict d) = Inr (length d)"
| "py_len _ = Inl TypeError"

text \<open>
  What \<^verbatim>\<open>for x in obj\<close> runs over: the elements of a list, the characters of a string
  (here its bytes, each a one-character string), the keys of a dict.
\<close>

fun iter_items :: "json \<Rightarrow> py_error + json list" where
  "iter_items (JList xs) = Inr xs"
| "iter_items (JStr s) = Inr (map (\<lambda>c. JStr [c]) s)"
| "iter_items (JDict d) = Inr (map (\<lambda>kv. JStr (fst kv)) d)"
| "iter_items _ = Inl TypeError"

text \<open>
  A member of a Python \<^verbatim>\<open>set\<close>, up to Python's equality of hashable values:
  \<^verbatim>\<open>True == 1 == 1.0\<close>, so the numbers are kept by their value. Lists and dicts are
  unhashable.
\<close>

datatype pykey = KNone | KNum rat | KStr string

fun hash_key :: "json \<Rightarrow> py_error + pykey" where
  "hash_key JNull = Inr KNone"
| "hash_key (JBool b) = Inr (KNum (if b then 1 else 0))"
| "hash_key (JInt n) = Inr (KNum (of_int n))"
| "hash_key (JFloat q) = Inr (KNum q)"
| "hash_key (JStr s) = Inr (KStr s)"
| "hash_key (JList xs) = Inl TypeError"
| "hash_key (JDict d) = Inl TypeError"

subsection \<open>Strings and integers\<close>

text \<open>\<^verbatim>\<open>s.split('.')\<close> and \<^verbatim>\<open>'.'.join(parts)\<close>, for a one-character separator.\<close>

fun py_split :: "char \<Rightarrow> string \<Rightarrow> string list" where
  "py_split sep [] = [[]]"
| "py_split sep (c # s) =
     (if c = sep then [] # py_split sep s
      else (case py_split sep s of [] \<Rightarrow> [[c]] | p # ps \<Rightarrow> (c # p) # ps))"

fun py_join :: "char \<Rightarrow> string list \<Rightarrow> string" where
  "py_join sep [] = []"
| "py_join sep [p] = p"
| "py_join sep (p # q # ps) = p @ sep # py_join sep (q # ps)"

text \<open>\<^verbatim>\<open>obj.split('.')\<close>: a method of strings only.\<close>

fun str_split :: "json \<Rightarrow> py_error + string list" where
  "str_split (JStr s) = Inr (py_split (CHR ''.'') s)"
| "str_split _ = Inl AttributeError"

text \<open>
  \<^verbatim>\<open>int(s)\<close> for a string, base ten, as CPython's \<^verbatim>\<open>PyLong_FromString\<close> reads an ASCII
  string: whitespace around, an optional sign, then digits, where single underscores
  may stand between two digits. Two things are not covered: Python also takes the
  Unicode spaces and decimal digits beyond ASCII, which are a \<^verbatim>\<open>ValueError\<close> here, and
  the interpreter has a configurable cap on the length of a numeral.
\<close>

definition is_space :: "char \<Rightarrow> bool" where
  "is_space c = (c \<in> set [CHR 0x09, CHR 0x0A, CHR 0x0B, CHR 0x0C, CHR 0x0D, CHR 0x20])"

definition is_digit :: "char \<Rightarrow> bool" where
  "is_digit c = (48 \<le> (of_char c :: nat) \<and> (of_char c :: nat) \<le> 57)"

definition digit_val :: "char \<Rightarrow> nat" where
  "digit_val c = of_char c - 48"

definition is_body :: "char \<Rightarrow> bool" where
  "is_body c = (is_digit c \<or> c = CHR ''_'')"

text \<open>A numeral's body: a digit, then digits each with at most one underscore before it.\<close>

fun underscores_ok :: "string \<Rightarrow> bool" where
  "underscores_ok [] = False"
| "underscores_ok [c] = is_digit c"
| "underscores_ok (c # d # s) =
     (is_digit c \<and> (if d = CHR ''_'' then underscores_ok s else underscores_ok (d # s)))"

definition digits_value :: "string \<Rightarrow> nat" where
  "digits_value s = foldl (\<lambda>a c. 10 * a + digit_val c) 0 (filter is_digit s)"

definition strip_sign :: "string \<Rightarrow> int \<times> string" where
  "strip_sign s =
     (case s of
        [] \<Rightarrow> (1, [])
      | c # r \<Rightarrow> if c = CHR ''+'' then (1, r) else if c = CHR ''-'' then (- 1, r) else (1, s))"

definition py_int :: "string \<Rightarrow> py_error + int" where
  "py_int s =
     (let (sign, t) = strip_sign (dropWhile is_space s);
          body = takeWhile is_body t;
          rest = dropWhile is_body t
      in if underscores_ok body \<and> list_all is_space rest
         then Inr (sign * int (digits_value body))
         else Inl ValueError)"

text \<open>\<^verbatim>\<open>str(n)\<close> for an integer.\<close>

fun nat_digits :: "nat \<Rightarrow> string" where
  "nat_digits n =
     (if n < 10 then [char_of (48 + n)]
      else nat_digits (n div 10) @ [char_of (48 + n mod 10)])"

declare nat_digits.simps [simp del]

definition py_str :: "int \<Rightarrow> string" where
  "py_str i = (if i < 0 then CHR ''-'' # nat_digits (nat (- i)) else nat_digits (nat i))"

subsection \<open>The script\<close>

text \<open>
  \<^verbatim>\<open>load_current_rules\<close>: the file holds a JSON document (\<open>Some\<close>) or is missing
  (\<open>None\<close>), which the function turns into Python's \<^verbatim>\<open>None\<close>. A file that is not
  JSON is outside the model.
\<close>

definition load_current_rules :: "json option \<Rightarrow> json" where
  "load_current_rules file = (case file of None \<Rightarrow> JNull | Some doc \<Rightarrow> doc)"

text \<open>
  The body of the first loop of \<^verbatim>\<open>analyze_and_update\<close>:
  \<^verbatim>\<open>if 'track_name' in rule and 'find' in rule['track_name']:
    existing_patterns.add(rule['track_name']['find'])\<close>
\<close>

definition scan_rule :: "pykey set \<Rightarrow> json \<Rightarrow> py_error + pykey set" where
  "scan_rule existing rule =
     (case contains ''track_name'' rule of
        Inl e \<Rightarrow> Inl e
      | Inr has_track \<Rightarrow>
          if \<not> has_track then Inr existing
          else (case getitem rule ''track_name'' of
                  Inl e \<Rightarrow> Inl e
                | Inr track \<Rightarrow>
                    (case contains ''find'' track of
                       Inl e \<Rightarrow> Inl e
                     | Inr has_find \<Rightarrow>
                         if \<not> has_find then Inr existing
                         else (case getitem2 rule ''track_name'' ''find'' of
                                 Inl e \<Rightarrow> Inl e
                               | Inr f \<Rightarrow>
                                   (case hash_key f of
                                      Inl e \<Rightarrow> Inl e
                                    | Inr k \<Rightarrow> Inr (insert k existing))))))"

fun existing_patterns :: "pykey set \<Rightarrow> json list \<Rightarrow> py_error + pykey set" where
  "existing_patterns existing [] = Inr existing"
| "existing_patterns existing (rule # rules) =
     (case scan_rule existing rule of
        Inl e \<Rightarrow> Inl e
      | Inr existing' \<Rightarrow> existing_patterns existing' rules)"

text \<open>
  The key of a candidate:
  \<^verbatim>\<open>pattern_key = None
  if 'track_name' in pattern: pattern_key = pattern['track_name']['find']
  elif 'album_name' in pattern: pattern_key = pattern['album_name']['find']\<close>
\<close>

definition pattern_key :: "json \<Rightarrow> py_error + json" where
  "pattern_key pattern =
     (case contains ''track_name'' pattern of
        Inl e \<Rightarrow> Inl e
      | Inr has_track \<Rightarrow>
          if has_track then getitem2 pattern ''track_name'' ''find''
          else (case contains ''album_name'' pattern of
                  Inl e \<Rightarrow> Inl e
                | Inr has_album \<Rightarrow>
                    if has_album then getitem2 pattern ''album_name'' ''find''
                    else Inr JNull))"

text \<open>
  The test \<^verbatim>\<open>pattern_key and pattern_key not in existing_patterns\<close>: a falsy key
  ends it before the set is asked, a truthy one has to be hashable.
\<close>

definition not_covered :: "pykey set \<Rightarrow> json \<Rightarrow> py_error + bool" where
  "not_covered existing key =
     (if \<not> truthy key then Inr False
      else (case hash_key key of
              Inl e \<Rightarrow> Inl e
            | Inr k \<Rightarrow> Inr (k \<notin> existing)))"

text \<open>
  \<^verbatim>\<open>current_rules['rules'].append(pattern)\<close>: only a list has \<^verbatim>\<open>append\<close>. The list
  is changed in place, so the catalog holds the longer list afterwards.
\<close>

definition append_rule :: "json \<Rightarrow> json \<Rightarrow> py_error + json" where
  "append_rule current_rules pattern =
     (case getitem current_rules ''rules'' of
        Inl e \<Rightarrow> Inl e
      | Inr rules \<Rightarrow>
          (case rules of
             JList rs \<Rightarrow> setitem current_rules ''rules'' (JList (rs @ [pattern]))
           | _ \<Rightarrow> Inl AttributeError))"

text \<open>
  The second loop, over the candidates, on the state
  \<open>(current_rules, new_rules_added, names)\<close>, where \<open>names\<close> collects the
  \<^verbatim>\<open>pattern['name']\<close> that the loop prints for each rule it adds.
\<close>

fun add_patterns ::
  "pykey set \<Rightarrow> json list \<Rightarrow> json \<times> nat \<times> json list \<Rightarrow> py_error + json \<times> nat \<times> json list"
where
  "add_patterns existing [] st = Inr st"
| "add_patterns existing (pattern # rest) (current_rules, new_rules_added, names) =
     (case pattern_key pattern of
        Inl e \<Rightarrow> Inl e
      | Inr key \<Rightarrow>
          (case not_covered existing key of
             Inl e \<Rightarrow> Inl e
           | Inr new \<Rightarrow>
               if \<not> new then add_patterns existing rest (current_rules, new_rules_added, names)
               else (case append_rule current_rules pattern of
                       Inl e \<Rightarrow> Inl e
                     | Inr current_rules' \<Rightarrow>
                         (case getitem pattern ''name'' of
                            Inl e \<Rightarrow> Inl e
                          | Inr name \<Rightarrow>
                              add_patterns existing rest
                                (current_rules', new_rules_added + 1, names @ [name])))))"

text \<open>
  The new version:
  \<^verbatim>\<open>current_version = current_rules.get('version', '1.0')
  version_parts = current_version.split('.')
  version_parts[1] = str(int(version_parts[1]) + 1)
  current_rules['version'] = '.'.join(version_parts)\<close>
\<close>

definition bump_version :: "json \<Rightarrow> py_error + string" where
  "bump_version current_rules =
     (case py_get current_rules ''version'' (JStr ''1.0'') of
        Inl e \<Rightarrow> Inl e
      | Inr current_version \<Rightarrow>
          (case str_split current_version of
             Inl e \<Rightarrow> Inl e
           | Inr version_parts \<Rightarrow>
               if length version_parts < 2 then Inl IndexError
               else (case py_int (version_parts ! 1) of
                       Inl e \<Rightarrow> Inl e
                     | Inr minor \<Rightarrow>
                         Inr (py_join (CHR ''.'') (version_parts[1 := py_str (minor + 1)])))))"

definition new_description :: "nat \<Rightarrow> string" where
  "new_description new_rules_added =
     ''Comprehensive set of rewrite rules to remove remaster information from track and album names, based on analysis of 600+ real Last.fm tracks. Updated with ''
     @ py_str (int new_rules_added) @ '' additional patterns.''"

definition update_version_and_description :: "json \<Rightarrow> nat \<Rightarrow> py_error + json" where
  "update_version_and_description current_rules new_rules_added =
     (case bump_version current_rules of
        Inl e \<Rightarrow> Inl e
      | Inr version \<Rightarrow>
          (case setitem current_rules ''version'' (JStr version) of
             Inl e \<Rightarrow> Inl e
           | Inr with_version \<Rightarrow>
               setitem with_version ''description'' (JStr (new_description new_rules_added))))"

text \<open>
  The body of \<^verbatim>\<open>analyze_and_update\<close> between the check of the loaded catalog and
  the call of \<^verbatim>\<open>save_updated_rules\<close>: the two loops and, when a rule was added, the
  new version and description. It is the specification's \<open>mergeRules\<close>, on the
  loaded catalog and the candidate list (the script's global
  \<^verbatim>\<open>additional_patterns\<close>), and returns the catalog as it stands in memory, the
  number of rules added and their names.
\<close>

definition merge_rules :: "json \<Rightarrow> json list \<Rightarrow> py_error + json \<times> nat \<times> json list" where
  "merge_rules current_rules patterns =
     (case getitem current_rules ''rules'' of
        Inl e \<Rightarrow> Inl e
      | Inr rules \<Rightarrow>
     (case py_len rules of
        Inl e \<Rightarrow> Inl e
      | Inr count \<Rightarrow>
     (case iter_items rules of
        Inl e \<Rightarrow> Inl e
      | Inr items \<Rightarrow>
     (case existing_patterns {} items of
        Inl e \<Rightarrow> Inl e
      | Inr existing \<Rightarrow>
     (case add_patterns existing patterns (current_rules, 0, []) of
        Inl e \<Rightarrow> Inl e
      | Inr (current_rules', new_rules_added, names) \<Rightarrow>
          if new_rules_added > 0
          then (case update_version_and_description current_rules' new_rules_added of
                  Inl e \<Rightarrow> Inl e
                | Inr updated \<Rightarrow> Inr (updated, new_rules_added, names))
          else Inr (current_rules', new_rules_added, names))))))"

text \<open>
  How a run of \<^verbatim>\<open>analyze_and_update\<close> ends when it raises nothing: it returns at once
  on a falsy catalog (\<open>Aborted\<close>); it finds nothing to add and leaves the file alone
  (\<open>AllCovered\<close>, with the catalog as it stands in memory); or it calls
  \<^verbatim>\<open>save_updated_rules\<close> on the updated catalog (\<open>Saved\<close>, with the catalog written,
  the number of rules added and their names).
\<close>

datatype outcome =
    Aborted
  | AllCovered json
  | Saved json nat "json list"

text \<open>
  \<^verbatim>\<open>analyze_and_update\<close>, from the state of the rules file and the candidate list. The
  save is the last step of the branch \<^verbatim>\<open>if new_rules_added > 0\<close>, after the version
  and the description are set, so an exception leaves the function before it;
  failures of the file system itself are outside the model.
\<close>

definition analyze_and_update :: "json option \<Rightarrow> json list \<Rightarrow> py_error + outcome" where
  "analyze_and_update file patterns =
     (let current_rules = load_current_rules file in
      if \<not> truthy current_rules then Inr Aborted
      else (case merge_rules current_rules patterns of
              Inl e \<Rightarrow> Inl e
            | Inr (updated, new_rules_added, names) \<Rightarrow>
                if new_rules_added > 0 then Inr (Saved updated new_rules_added names)
                else Inr (AllCovered updated)))"

text \<open>The document that a run hands to \<^verbatim>\<open>save_updated_rules\<close>, if it gets there.\<close>

fun saved_document :: "py_error + outcome \<Rightarrow> json option" where
  "saved_document (Inr (Saved doc n names)) = Some doc"
| "saved_document _ = None"

text \<open>
  The rules file after a run, the number of rules the run reports as added, and their
  names.
\<close>

definition file_after :: "json option \<Rightarrow> py_error + outcome \<Rightarrow> json option" where
  "file_after file result = (case saved_document result of None \<Rightarrow> file | Some doc \<Rightarrow> Some doc)"

fun added_count :: "py_error + outcome \<Rightarrow> nat" where
  "added_count (Inr (Saved doc n names)) = n"
| "added_count _ = 0"

fun added_names :: "py_error + outcome \<Rightarrow> json list" where
  "added_names (Inr (Saved doc n names)) = names"
| "added_names _ = []"

subsection \<open>The candidate rules\<close>

text \<open>
  The script's list \<^verbatim>\<open>additional_patterns\<close>. Three characters are spliced into the
  string literals: the backslash of the regular expressions, the arrow (U+2192, three
  bytes in UTF-8) of the examples, and an apostrophe where it ends a string.
\<close>

abbreviation backslash :: string where
  "backslash \<equiv> [CHR 0x5C]"

abbreviation arrow :: string where
  "arrow \<equiv> [CHR 0xE2, CHR 0x86, CHR 0x92]"

abbreviation apostrophe :: string where
  "apostrophe \<equiv> [CHR 0x27]"

definition additional_patterns :: "json list" where
  "additional_patterns =
    [JDict
       [(''name'', JStr ''Remove Anniversary Edition from Album''),
        (''description'', JStr ''Removes patterns like 'Album (50th Anniversary Edition)' from album names''),
        (''examples'', JList
           [JStr (''Abbey Road (50th Anniversary Edition) '' @ arrow @ '' Abbey Road''),
            JStr (''Pet Sounds (50th Anniversary Edition) '' @ arrow @ '' Pet Sounds'')]),
        (''album_name'', JDict
           [(''find'', JStr (''^(.+?) '' @ backslash @ ''('' @ backslash @ ''d+th Anniversary Edition'' @ backslash @ '')$'')),
            (''replace'', JStr ''$1'')]),
        (''requires_confirmation'', JBool False)],
     JDict
       [(''name'', JStr ''Remove Deluxe Remaster Album''),
        (''description'', JStr ''Removes patterns like 'Album (Deluxe Remaster)' from album names''),
        (''examples'', JList
           [JStr (''Dark Side of the Moon (Deluxe Remaster) '' @ arrow @ '' Dark Side of the Moon'')]),
        (''album_name'', JDict
           [(''find'', JStr (''^(.+?) '' @ backslash @ ''(Deluxe Remaster'' @ backslash @ '')$'')),
            (''replace'', JStr ''$1'')]),
        (''requires_confirmation'', JBool False)],
     JDict
       [(''name'', JStr ''Remove Super Deluxe Edition Album''),
        (''description'', JStr ''Removes patterns like 'Album (Super Deluxe Edition)' from album names''),
        (''examples'', JList
           [JStr (''The White Album (Super Deluxe Edition) '' @ arrow @ '' The White Album'')]),
        (''album_name'', JDict
           [(''find'', JStr (''^(.+?) '' @ backslash @ ''(Super Deluxe Edition'' @ backslash @ '')$'')),
            (''replace'', JStr ''$1'')]),
        (''requires_confirmation'', JBool False)],
     JDict
       [(''name'', JStr ''Remove HD Remastered''),
        (''description'', JStr (''Removes patterns like 'Song - HD Remastered'' @ apostrophe)),
        (''examples'', JList
           [JStr (''Bohemian Rhapsody - HD Remastered '' @ arrow @ '' Bohemian Rhapsody'')]),
        (''track_name'', JDict
           [(''find'', JStr ''^(.+?) - HD Remastered$''),
            (''replace'', JStr ''$1'')]),
        (''requires_confirmation'', JBool False)],
     JDict
       [(''name'', JStr ''Remove Hi-Res Remaster''),
        (''description'', JStr (''Removes patterns like 'Song - Hi-Res Remaster'' @ apostrophe)),
        (''examples'', JList
           [JStr (''Stairway to Heaven - Hi-Res Remaster '' @ arrow @ '' Stairway to Heaven'')]),
        (''track_name'', JDict
           [(''find'', JStr ''^(.+?) - Hi-Res Remaster$''),
            (''replace'', JStr ''$1'')]),
        (''requires_confirmation'', JBool False)],
     JDict
       [(''name'', JStr ''Remove Stereo Remaster''),
        (''description'', JStr (''Removes patterns like 'Song - Stereo Remaster' or 'Song - 2009 Stereo Remaster'' @ apostrophe)),
        (''examples'', JList
           [JStr (''Come Together - 2009 Stereo Remaster '' @ arrow @ '' Come Together''),
            JStr (''Here Comes the Sun - Stereo Remaster '' @ arrow @ '' Here Comes the Sun'')]),
        (''track_name'', JDict
           [(''find'', JStr (''^(.+?) - ('' @ backslash @ ''d{4} )?Stereo Remaster$'')),
            (''replace'', JStr ''$1'')]),
        (''requires_confirmation'', JBool False)],
     JDict
       [(''name'', JStr ''Remove Mono Remaster''),
        (''description'', JStr (''Removes patterns like 'Song - Mono Remaster' or 'Song - 2014 Mono Remaster'' @ apostrophe)),
        (''examples'', JList
           [JStr (''I Want to Hold Your Hand - 2014 Mono Remaster '' @ arrow @ '' I Want to Hold Your Hand'')]),
        (''track_name'', JDict
           [(''find'', JStr (''^(.+?) - ('' @ backslash @ ''d{4} )?Mono Remaster$'')),
            (''replace'', JStr ''$1'')]),
        (''requires_confirmation'', JBool False)],
     JDict
       [(''name'', JStr ''Remove Expanded Edition Track''),
        (''description'', JStr (''Removes patterns like 'Song - Expanded Edition'' @ apostrophe)),
        (''examples'', JList
           [JStr (''Norwegian Wood - Expanded Edition '' @ arrow @ '' Norwegian Wood'')]),
        (''track_name'', JDict
           [(''find'', JStr ''^(.+?) - Expanded Edition$''),
            (''replace'', JStr ''$1'')]),
        (''requires_confirmation'', JBool False)],
     JDict
       [(''name'', JStr ''Remove Collector's Edition Track''),
        (''description'', JStr (''Removes patterns like 'Song - Collector's Edition'' @ apostrophe)),
        (''examples'', JList
           [JStr (''Love Me Do - Collector's Edition '' @ arrow @ '' Love Me Do'')]),
        (''track_name'', JDict
           [(''find'', JStr ''^(.+?) - Collector's Edition$''),
            (''replace'', JStr ''$1'')]),
        (''requires_confirmation'', JBool False)],
     JDict
       [(''name'', JStr ''Remove Anniversary Remaster Track''),
        (''description'', JStr (''Removes patterns like 'Song - 50th Anniversary Remaster'' @ apostrophe)),
        (''examples'', JList
           [JStr (''Yesterday - 50th Anniversary Remaster '' @ arrow @ '' Yesterday''),
            JStr (''Help! - 25th Anniversary Remaster '' @ arrow @ '' Help!'')]),
        (''track_name'', JDict
           [(''find'', JStr (''^(.+?) - '' @ backslash @ ''d+th Anniversary Remaster$'')),
            (''replace'', JStr ''$1'')]),
        (''requires_confirmation'', JBool False)],
     JDict
       [(''name'', JStr ''Remove Special Edition Track''),
        (''description'', JStr (''Removes patterns like 'Song - Special Edition'' @ apostrophe)),
        (''examples'', JList
           [JStr (''Revolution - Special Edition '' @ arrow @ '' Revolution'')]),
        (''track_name'', JDict
           [(''find'', JStr ''^(.+?) - Special Edition$''),
            (''replace'', JStr ''$1'')]),
        (''requires_confirmation'', JBool False)],
     JDict
       [(''name'', JStr ''Remove Year Digital Remaster with Extra Info''),
        (''description'', JStr (''Removes patterns like 'Song - 2009 Digital Remaster / Extra Info'' @ apostrophe)),
        (''examples'', JList
           [JStr (''The End - 2009 Digital Remaster / Medley '' @ arrow @ '' The End'')]),
        (''track_name'', JDict
           [(''find'', JStr (''^(.+?) - '' @ backslash @ ''d{4} Digital Remaster / .*$'')),
            (''replace'', JStr ''$1'')]),
        (''requires_confirmation'', JBool False)]]"

subsection \<open>Which candidates are added\<close>

text \<open>
  The candidates that the second loop appends, as one predicate over the loop's test:
  the candidate has a key, the key is truthy and hashable, and it is not among the
  existing ones.
\<close>

definition adds :: "pykey set \<Rightarrow> json \<Rightarrow> bool" where
  "adds existing pattern =
     (case pattern_key pattern of
        Inl e \<Rightarrow> False
      | Inr key \<Rightarrow>
          truthy key \<and> (case hash_key key of Inl e \<Rightarrow> False | Inr k \<Rightarrow> k \<notin> existing))"

subsection \<open>Example catalogs and candidates\<close>

text \<open>A catalog document with the three fields of the persisted format.\<close>

definition catalog :: "string \<Rightarrow> json list \<Rightarrow> json" where
  "catalog version rules =
     JDict [(''version'', JStr version), (''description'', JStr []), (''rules'', JList rules)]"

definition track_rule :: "string \<Rightarrow> string \<Rightarrow> json" where
  "track_rule name regex =
     JDict [(''name'', JStr name),
            (''track_name'', JDict [(''find'', JStr regex), (''replace'', JStr ''$1'')])]"

definition album_rule :: "string \<Rightarrow> string \<Rightarrow> json" where
  "album_rule name regex =
     JDict [(''name'', JStr name),
            (''album_name'', JDict [(''find'', JStr regex), (''replace'', JStr ''$1'')])]"

definition remastered_rule :: json where
  "remastered_rule = track_rule ''Remove Remastered'' ''^(.+) - Remastered$''"

definition hd_rule :: json where
  "hd_rule = track_rule ''Remove HD Remastered'' ''^(.+) - HD Remastered$''"

definition deluxe_album_rule :: json where
  "deluxe_album_rule = album_rule ''Remove Deluxe Edition'' ''^(.+) - Deluxe Edition$''"

text \<open>The catalog that the code makes of \<open>catalog version rules\<close> when it adds \<open>n\<close> rules.\<close>

definition updated_catalog :: "string \<Rightarrow> nat \<Rightarrow> json list \<Rightarrow> json" where
  "updated_catalog version n rules =
     JDict [(''version'', JStr version), (''description'', JStr (new_description n)),
            (''rules'', JList rules)]"

text \<open>
  Two runs of the script in a row, on a rules file that starts as a catalog of version
  \<open>1.0\<close> with no rules: the second run reads what the first one saved.
\<close>

definition first_run :: "py_error + outcome" where
  "first_run = analyze_and_update (Some (catalog ''1.0'' [])) additional_patterns"

definition second_run :: "py_error + outcome" where
  "second_run =
     analyze_and_update (file_after (Some (catalog ''1.0'' [])) first_run) additional_patterns"

section \<open>Properties\<close>

subsection \<open>Dictionaries\<close>

lemma dict_get_dict_set:
  "dict_get (dict_set k v d) k' = (if k' = k then Some v else dict_get d k')"
  by (induction d) auto

lemma dict_set_twice: "dict_set k v (dict_set k w d) = dict_set k v d"
  by (induction d) auto

lemma getitem_Inr: "getitem c k = Inr v \<Longrightarrow> \<exists>d. c = JDict d \<and> dict_get d k = Some v"
  by (cases c) (auto split: option.splits)

lemma getitem_contains: "getitem x k = Inr v \<Longrightarrow> contains k x = Inr True"
  by (cases x) (auto split: option.splits)

subsection \<open>Splitting, joining and numerals\<close>

lemma py_split_ne: "py_split sep s \<noteq> []"
  by (induction s) (auto split: list.splits)


















subsection \<open>The two loops\<close>

lemma not_covered_adds:
  "pattern_key p = Inr key \<Longrightarrow> not_covered ex key = Inr b \<Longrightarrow> b = adds ex p"
  by (auto simp: not_covered_def adds_def split: if_splits sum.splits)

lemma append_rule_dict:
  "append_rule (JDict d) p = Inr c' \<Longrightarrow>
   \<exists>rs. dict_get d ''rules'' = Some (JList rs) \<and> c' = JDict (dict_set ''rules'' (JList (rs @ [p])) d)"
  by (auto simp: append_rule_def split: sum.splits option.splits json.splits)

lemma add_patterns_dict:
  "add_patterns ex pats (JDict d, n, names) = Inr (c', n', names') \<Longrightarrow>
   dict_get d ''rules'' = Some rules \<Longrightarrow>
   n' = n + length (filter (adds ex) pats) \<and>
   map (\<lambda>x. Inr x) names' = map Inr names @ map (\<lambda>p. getitem p ''name'') (filter (adds ex) pats) \<and>
   (if filter (adds ex) pats = [] then c' = JDict d
    else \<exists>rs. rules = JList rs \<and> c' = JDict (dict_set ''rules'' (JList (rs @ filter (adds ex) pats)) d))"
proof (induction pats arbitrary: d n names rules)
  case Nil
  then show ?case by simp
next
  case (Cons p pats)
  from Cons.prems(1) obtain key where key: "pattern_key p = Inr key"
    by (auto split: sum.splits)
  from Cons.prems(1) key obtain b where b: "not_covered ex key = Inr b"
    by (auto split: sum.splits)
  have b_eq: "b = adds ex p" using not_covered_adds [OF key b] .
  show ?case
  proof (cases b)
    case False
    with Cons.prems key b have "add_patterns ex pats (JDict d, n, names) = Inr (c', n', names')"
      by simp
    from Cons.IH [OF this Cons.prems(2)] False b_eq show ?thesis by simp
  next
    case True
    with Cons.prems(1) key b obtain c1 where c1: "append_rule (JDict d) p = Inr c1"
      by (auto split: sum.splits)
    with Cons.prems(1) key b True obtain nm where nm: "getitem p ''name'' = Inr nm"
      by (auto split: sum.splits)
    from append_rule_dict [OF c1] Cons.prems(2) obtain rs where
      rs: "rules = JList rs" and c1_eq: "c1 = JDict (dict_set ''rules'' (JList (rs @ [p])) d)"
      by auto
    from Cons.prems(1) key b True c1 nm c1_eq
    have rest: "add_patterns ex pats (JDict (dict_set ''rules'' (JList (rs @ [p])) d), n + 1, names @ [nm])
                = Inr (c', n', names')"
      by simp
    have get: "dict_get (dict_set ''rules'' (JList (rs @ [p])) d) ''rules'' = Some (JList (rs @ [p]))"
      by (simp add: dict_get_dict_set)
    from Cons.IH [OF rest get] True b_eq rs nm show ?thesis
      by (auto simp: dict_set_twice split: if_splits)
  qed
qed


lemma scan_rule_keys:
  "scan_rule ex r = Inr ex' \<Longrightarrow>
   ex' = ex \<union> {k. \<exists>f. getitem2 r ''track_name'' ''find'' = Inr f \<and> hash_key f = Inr k}"
  by (auto simp: scan_rule_def getitem2_def split: sum.splits if_splits dest: getitem_contains)

lemma existing_patterns_keys:
  "existing_patterns ex rules = Inr ex' \<Longrightarrow>
   ex' = ex \<union> {k. \<exists>r\<in>set rules. \<exists>f. getitem2 r ''track_name'' ''find'' = Inr f \<and> hash_key f = Inr k}"
proof (induction rules arbitrary: ex)
  case Nil
  then show ?case by simp
next
  case (Cons r rules)
  from Cons.prems obtain ex1 where r: "scan_rule ex r = Inr ex1"
    and rest: "existing_patterns ex1 rules = Inr ex'"
    by (auto split: sum.splits)
  from scan_rule_keys [OF r] Cons.IH [OF rest] show ?case by auto
qed

lemma bump_version_rules:
  "bump_version (JDict (dict_set ''rules'' x d)) = bump_version (JDict d)"
  by (simp add: bump_version_def dict_get_dict_set)

lemma merge_rules_char:
  assumes "merge_rules c pats = Inr (c', n, names)"
  shows "\<exists>d rules items ex.
           c = JDict d \<and> dict_get d ''rules'' = Some rules \<and> iter_items rules = Inr items \<and>
           existing_patterns {} items = Inr ex \<and>
           n = length (filter (adds ex) pats) \<and>
           map Inr names = map (\<lambda>p. getitem p ''name'') (filter (adds ex) pats) \<and>
           (if n = 0 then c' = c
            else \<exists>rs v. rules = JList rs \<and> bump_version c = Inr v \<and>
                   c' = JDict (dict_set ''description'' (JStr (new_description n))
                          (dict_set ''version'' (JStr v)
                            (dict_set ''rules'' (JList (rs @ filter (adds ex) pats)) d))))"
proof -
  from assms obtain rules where rules: "getitem c ''rules'' = Inr rules"
    by (auto simp: merge_rules_def split: sum.splits)
  from getitem_Inr [OF rules] obtain d where c: "c = JDict d" and get: "dict_get d ''rules'' = Some rules"
    by auto
  from assms rules obtain items where items: "iter_items rules = Inr items"
    by (auto simp: merge_rules_def split: sum.splits)
  from assms rules items obtain ex where ex: "existing_patterns {} items = Inr ex"
    by (auto simp: merge_rules_def split: sum.splits)
  from assms rules items ex obtain c1 n1 names1 where
    loop: "add_patterns ex pats (c, 0, []) = Inr (c1, n1, names1)"
    by (auto simp: merge_rules_def split: sum.splits)
  from assms rules items ex loop have
    fin: "(if n1 > 0
           then (case update_version_and_description c1 n1 of
                   Inl e \<Rightarrow> Inl e | Inr updated \<Rightarrow> Inr (updated, n1, names1))
           else Inr (c1, n1, names1)) = Inr (c', n, names)"
    by (auto simp: merge_rules_def split: sum.splits if_splits)
  from add_patterns_dict [OF loop [unfolded c] get] have
    n1: "n1 = length (filter (adds ex) pats)" and
    names1: "map Inr names1 = map (\<lambda>p. getitem p ''name'') (filter (adds ex) pats)" and
    c1: "if filter (adds ex) pats = [] then c1 = JDict d
         else \<exists>rs. rules = JList rs \<and>
                c1 = JDict (dict_set ''rules'' (JList (rs @ filter (adds ex) pats)) d)"
    by simp_all
  show ?thesis
  proof (cases "n1 = 0")
    case True
    with fin n1 c1 c have "n = 0" "names = names1" "c' = c" by (auto split: if_splits)
    with c get items ex n1 names1 True show ?thesis by auto
  next
    case False
    with n1 c1 obtain rs where rs: "rules = JList rs"
      and c1_eq: "c1 = JDict (dict_set ''rules'' (JList (rs @ filter (adds ex) pats)) d)"
      by auto
    from fin False obtain upd where
      upd: "update_version_and_description c1 n1 = Inr upd" and eqs: "c' = upd" "n = n1" "names = names1"
      by (auto split: sum.splits)
    from upd c1_eq obtain v where v: "bump_version c = Inr v"
      and upd_eq: "upd = JDict (dict_set ''description'' (JStr (new_description n1))
                          (dict_set ''version'' (JStr v)
                            (dict_set ''rules'' (JList (rs @ filter (adds ex) pats)) d)))"
      by (auto simp: update_version_and_description_def bump_version_rules c split: sum.splits)
    with c get items ex n1 names1 False rs eqs show ?thesis by auto
  qed
qed

lemma merge_rules_result:
  assumes "merge_rules c pats = Inr (c', n, names)"
  shows "\<exists>rules items ex.
           getitem c ''rules'' = Inr rules \<and> iter_items rules = Inr items \<and>
           existing_patterns {} items = Inr ex \<and>
           n = length (filter (adds ex) pats) \<and>
           map Inr names = map (\<lambda>p. getitem p ''name'') (filter (adds ex) pats) \<and>
           (if n = 0 then c' = c
            else \<exists>rs v. rules = JList rs \<and> bump_version c = Inr v \<and>
                   getitem c' ''rules'' = Inr (JList (rs @ filter (adds ex) pats)) \<and>
                   getitem c' ''version'' = Inr (JStr v) \<and>
                   getitem c' ''description'' = Inr (JStr (new_description n)))"
proof -
  from merge_rules_char [OF assms] obtain d rules items ex where
    c: "c = JDict d" and get: "dict_get d ''rules'' = Some rules" and
    items: "iter_items rules = Inr items" and ex: "existing_patterns {} items = Inr ex" and
    n: "n = length (filter (adds ex) pats)" and
    names: "map Inr names = map (\<lambda>p. getitem p ''name'') (filter (adds ex) pats)" and
    c': "if n = 0 then c' = c
         else \<exists>rs v. rules = JList rs \<and> bump_version c = Inr v \<and>
                c' = JDict (dict_set ''description'' (JStr (new_description n))
                       (dict_set ''version'' (JStr v)
                         (dict_set ''rules'' (JList (rs @ filter (adds ex) pats)) d)))"
    by blast
  have rules: "getitem c ''rules'' = Inr rules" using c get by simp
  show ?thesis
  proof (cases "n = 0")
    case True
    with c' rules items ex n names show ?thesis by auto
  next
    case False
    with c' obtain rs v where rs: "rules = JList rs" and v: "bump_version c = Inr v" and
      c'_eq: "c' = JDict (dict_set ''description'' (JStr (new_description n))
                       (dict_set ''version'' (JStr v)
                         (dict_set ''rules'' (JList (rs @ filter (adds ex) pats)) d)))"
      by auto
    have "getitem c' ''rules'' = Inr (JList (rs @ filter (adds ex) pats))"
      "getitem c' ''version'' = Inr (JStr v)"
      "getitem c' ''description'' = Inr (JStr (new_description n))"
      by (simp_all add: c'_eq dict_get_dict_set)
    with False rules items ex n names rs v show ?thesis by auto
  qed
qed




subsection \<open>Keys of candidates and rules\<close>

lemma adds_iff:
  "adds ex p \<longleftrightarrow>
     (\<exists>key k. pattern_key p = Inr key \<and> truthy key \<and> hash_key key = Inr k \<and> k \<notin> ex)"
  by (auto simp: adds_def split: sum.splits)

lemma add_patterns_keys:
  "add_patterns ex pats st = Inr st' \<Longrightarrow> p \<in> set pats \<Longrightarrow>
   \<exists>key. pattern_key p = Inr key \<and> (truthy key \<longrightarrow> (\<exists>k. hash_key key = Inr k))"
proof (induction pats arbitrary: st)
  case Nil
  then show ?case by simp
next
  case (Cons q pats)
  obtain cr n names where st: "st = (cr, n, names)" by (cases st) auto
  from Cons.prems(1) st obtain key where key: "pattern_key q = Inr key"
    by (auto split: sum.splits)
  from Cons.prems(1) st key obtain b where b: "not_covered ex key = Inr b"
    by (auto split: sum.splits)
  from b have hash: "truthy key \<longrightarrow> (\<exists>k. hash_key key = Inr k)"
    by (auto simp: not_covered_def split: if_splits sum.splits)
  from Cons.prems(1) st key b obtain st1 where "add_patterns ex pats st1 = Inr st'"
    by (auto split: sum.splits if_splits)
  from Cons.IH [OF this] Cons.prems(2) key hash show ?case by auto
qed

lemma merge_rules_keys:
  assumes "merge_rules c pats = Inr r" and "p \<in> set pats"
  shows "\<exists>key. pattern_key p = Inr key \<and> (truthy key \<longrightarrow> (\<exists>k. hash_key key = Inr k))"
proof -
  from assms(1) obtain ex st where "add_patterns ex pats (c, 0, []) = Inr st"
    by (auto simp: merge_rules_def split: sum.splits)
  from add_patterns_keys [OF this assms(2)] show ?thesis .
qed

lemma pattern_key_none:
  "contains ''track_name'' p = Inr False \<Longrightarrow> contains ''album_name'' p = Inr False \<Longrightarrow>
   pattern_key p = Inr JNull"
  by (simp add: pattern_key_def)

lemma pattern_key_track:
  "getitem2 p ''track_name'' ''find'' = Inr f \<Longrightarrow> pattern_key p = Inr f"
  by (auto simp: pattern_key_def getitem2_def split: sum.splits dest: getitem_contains)

lemma scan_rule_hashes:
  "scan_rule ex r = Inr ex' \<Longrightarrow> getitem2 r ''track_name'' ''find'' = Inr f \<Longrightarrow>
   \<exists>k. hash_key f = Inr k"
  by (auto simp: scan_rule_def getitem2_def split: sum.splits if_splits dest: getitem_contains)

lemma existing_patterns_hashes:
  "existing_patterns ex rules = Inr ex' \<Longrightarrow> r \<in> set rules \<Longrightarrow>
   getitem2 r ''track_name'' ''find'' = Inr f \<Longrightarrow> \<exists>k. hash_key f = Inr k"
proof (induction rules arbitrary: ex)
  case Nil
  then show ?case by simp
next
  case (Cons q rules)
  from Cons.prems(1) obtain ex1 where q: "scan_rule ex q = Inr ex1"
    and rest: "existing_patterns ex1 rules = Inr ex'"
    by (auto split: sum.splits)
  show ?case
  proof (cases "r = q")
    case True
    with q Cons.prems(3) show ?thesis by (auto dest: scan_rule_hashes)
  next
    case False
    with Cons.prems(2) have "r \<in> set rules" by simp
    from Cons.IH [OF rest this Cons.prems(3)] show ?thesis .
  qed
qed


subsection \<open>Runs on the examples\<close>

lemma scenario_a:
  "merge_rules (catalog ''1.2'' [remastered_rule])
     [track_rule ''Remove Remastered again'' ''^(.+) - Remastered$'', hd_rule]
   = Inr (updated_catalog ''1.3'' 1 [remastered_rule, hd_rule], 1, [JStr ''Remove HD Remastered''])"
  by code_simp



lemma album_prior_run:
  "merge_rules (catalog ''1.0'' [remastered_rule, deluxe_album_rule])
     [track_rule ''Remove Remastered again'' ''^(.+) - Remastered$'',
      album_rule ''Remove Deluxe Edition again'' ''^(.+) - Deluxe Edition$'']
   = Inr (updated_catalog ''1.1'' 1
            [remastered_rule, deluxe_album_rule,
             album_rule ''Remove Deluxe Edition again'' ''^(.+) - Deluxe Edition$''],
          1, [JStr ''Remove Deluxe Edition again''])"
  by code_simp

lemma same_key_run:
  "merge_rules (catalog ''1.0'' [remastered_rule])
     ([] @ track_rule ''Remove HD Remastered, first'' ''^(.+) - HD Remastered$''
         # [] @ track_rule ''Remove HD Remastered, second'' ''^(.+) - HD Remastered$'' # [])
   = Inr (updated_catalog ''1.1'' 2
            [remastered_rule,
             track_rule ''Remove HD Remastered, first'' ''^(.+) - HD Remastered$'',
             track_rule ''Remove HD Remastered, second'' ''^(.+) - HD Remastered$''],
          2, [JStr ''Remove HD Remastered, first'', JStr ''Remove HD Remastered, second''])"
  by code_simp

lemma mixed_run:
  "merge_rules (catalog ''1.0'' [remastered_rule])
     [JDict [(''name'', JStr ''No pattern'')],
      track_rule ''Remove Remastered again'' ''^(.+) - Remastered$'',
      hd_rule]
   = Inr (updated_catalog ''1.1'' 1 [remastered_rule, hd_rule], 1, [JStr ''Remove HD Remastered''])"
  by code_simp

section \<open>The claims\<close>

subsection \<open>A falsy catalog\<close>

text \<open>
  Claim C9. Whenever the loaded catalog is falsy (the file is missing, or it holds an
  empty document, \<^verbatim>\<open>null\<close>, \<^verbatim>\<open>false\<close>, a zero, an empty string or an empty list), the
  run returns at once: whatever the candidates are, nothing is scanned, appended or
  raised, nothing is saved and the file stays as it was.
\<close>

theorem falsy_catalog_aborts:
  assumes "\<not> truthy (load_current_rules file)"
  shows "analyze_and_update file patterns = Inr Aborted \<and>
         saved_document (analyze_and_update file patterns) = None \<and>
         file_after file (analyze_and_update file patterns) = file"
  using assms by (simp add: analyze_and_update_def file_after_def)

theorem falsy_catalog_aborts_witness:
  "\<not> truthy (load_current_rules (Some (JDict []))) \<and>
   analyze_and_update (Some (JDict [])) additional_patterns = Inr Aborted \<and>
   saved_document (analyze_and_update (Some (JDict [])) additional_patterns) = None \<and>
   file_after (Some (JDict [])) (analyze_and_update (Some (JDict [])) additional_patterns)
     = Some (JDict [])"
proof -
  have falsy: "\<not> truthy (load_current_rules (Some (JDict [])))"
    by (simp add: load_current_rules_def)
  from falsy falsy_catalog_aborts [OF falsy, of additional_patterns] show ?thesis
    by blast
qed

subsection \<open>The description\<close>



subsection \<open>The rules only grow at the end\<close>

text \<open>
  Claim C3. When a merge returns, the rules of the merged catalog are the rules of the
  original catalog, each where it was, followed by the appended candidates: a
  subsequence of the candidate list (so each candidate is appended as it is, in the
  order of the list), as many as the merge counts. When nothing is appended the rules
  are the value they were.
\<close>

theorem rules_append_only:
  assumes "merge_rules c patterns = Inr (c', n, names)"
  shows "\<exists>rules appended.
           getitem c ''rules'' = Inr rules \<and>
           subseq appended patterns \<and> length appended = n \<and>
           (if appended = [] then getitem c' ''rules'' = Inr rules
            else \<exists>rs. rules = JList rs \<and> getitem c' ''rules'' = Inr (JList (rs @ appended)))"
proof -
  from merge_rules_result [OF assms] obtain rules ex where
    rules: "getitem c ''rules'' = Inr rules" and
    n: "n = length (filter (adds ex) patterns)" and
    c': "if n = 0 then c' = c
         else \<exists>rs. rules = JList rs \<and>
                getitem c' ''rules'' = Inr (JList (rs @ filter (adds ex) patterns))"
    by (auto split: if_splits)
  have "subseq (filter (adds ex) patterns) patterns" by simp
  moreover from n c' rules have
    "if filter (adds ex) patterns = [] then getitem c' ''rules'' = Inr rules
     else \<exists>rs. rules = JList rs \<and>
            getitem c' ''rules'' = Inr (JList (rs @ filter (adds ex) patterns))"
    by (auto split: if_splits)
  ultimately show ?thesis using rules n by blast
qed

theorem rules_append_only_witness:
  "\<exists>rules appended.
     getitem (catalog ''1.2'' [remastered_rule]) ''rules'' = Inr rules \<and>
     subseq appended [track_rule ''Remove Remastered again'' ''^(.+) - Remastered$'', hd_rule] \<and>
     length appended = 1 \<and>
     (if appended = []
      then getitem (updated_catalog ''1.3'' 1 [remastered_rule, hd_rule]) ''rules'' = Inr rules
      else \<exists>rs. rules = JList rs \<and>
             getitem (updated_catalog ''1.3'' 1 [remastered_rule, hd_rule]) ''rules''
               = Inr (JList (rs @ appended)))"
  by (rule rules_append_only [OF scenario_a])

subsection \<open>The version\<close>








subsection \<open>Which candidates are appended\<close>

text \<open>
  Claim C5. When a merge returns, the set of existing keys holds exactly the
  \<^verbatim>\<open>track_name.find\<close> values of the catalog's rules (a rule with only an
  \<^verbatim>\<open>album_name\<close> gives nothing), and no candidate whose key, from its \<^verbatim>\<open>track_name\<close> or
  its \<^verbatim>\<open>album_name\<close>, is in that set is among the appended rules. In particular a
  candidate with the \<^verbatim>\<open>track_name.find\<close> of a rule of the catalog is not appended.
\<close>

theorem dedup_on_track_find:
  assumes "merge_rules c patterns = Inr (c', n, names)"
  shows "\<exists>rules items existing appended.
           getitem c ''rules'' = Inr rules \<and> iter_items rules = Inr items \<and>
           existing_patterns {} items = Inr existing \<and>
           existing = {k. \<exists>r\<in>set items. \<exists>f. getitem2 r ''track_name'' ''find'' = Inr f \<and>
                                            hash_key f = Inr k} \<and>
           length appended = n \<and>
           (if appended = [] then getitem c' ''rules'' = Inr rules
            else \<exists>rs. rules = JList rs \<and> getitem c' ''rules'' = Inr (JList (rs @ appended))) \<and>
           (\<forall>p\<in>set patterns. \<forall>key k.
              pattern_key p = Inr key \<and> hash_key key = Inr k \<and> k \<in> existing \<longrightarrow>
              p \<notin> set appended) \<and>
           (\<forall>p\<in>set patterns. \<forall>r\<in>set items. \<forall>f.
              getitem2 p ''track_name'' ''find'' = Inr f \<and>
              getitem2 r ''track_name'' ''find'' = Inr f \<longrightarrow>
              p \<notin> set appended)"
proof -
  from merge_rules_result [OF assms] obtain rules items ex where
    rules: "getitem c ''rules'' = Inr rules" and items: "iter_items rules = Inr items" and
    ex: "existing_patterns {} items = Inr ex" and
    n: "n = length (filter (adds ex) patterns)" and
    c': "if n = 0 then c' = c
         else \<exists>rs. rules = JList rs \<and>
                getitem c' ''rules'' = Inr (JList (rs @ filter (adds ex) patterns))"
    by (auto split: if_splits)
  let ?app = "filter (adds ex) patterns"
  have keys: "ex = {k. \<exists>r\<in>set items. \<exists>f. getitem2 r ''track_name'' ''find'' = Inr f \<and>
                                         hash_key f = Inr k}"
    using existing_patterns_keys [OF ex] by simp
  have tail: "if ?app = [] then getitem c' ''rules'' = Inr rules
              else \<exists>rs. rules = JList rs \<and> getitem c' ''rules'' = Inr (JList (rs @ ?app))"
    using n c' rules by (auto split: if_splits)
  have covered: "\<forall>p\<in>set patterns. \<forall>key k.
      pattern_key p = Inr key \<and> hash_key key = Inr k \<and> k \<in> ex \<longrightarrow> p \<notin> set ?app"
    by (auto simp: adds_iff)
  have same: "\<forall>p\<in>set patterns. \<forall>r\<in>set items. \<forall>f.
      getitem2 p ''track_name'' ''find'' = Inr f \<and> getitem2 r ''track_name'' ''find'' = Inr f \<longrightarrow>
      p \<notin> set ?app"
  proof (intro ballI allI impI)
    fix p r f
    assume r: "r \<in> set items"
      and f: "getitem2 p ''track_name'' ''find'' = Inr f \<and> getitem2 r ''track_name'' ''find'' = Inr f"
    from existing_patterns_hashes [OF ex r] f obtain k where k: "hash_key f = Inr k" by auto
    with keys r f have "k \<in> ex" by auto
    moreover from f have "pattern_key p = Inr f" by (simp add: pattern_key_track)
    ultimately show "p \<notin> set ?app" using k by (auto simp: adds_iff)
  qed
  from rules items ex keys n tail covered same show ?thesis by blast
qed

theorem dedup_on_track_find_witness:
  "\<exists>rules items existing appended.
     getitem (catalog ''1.0'' [remastered_rule, deluxe_album_rule]) ''rules'' = Inr rules \<and>
     iter_items rules = Inr items \<and>
     existing_patterns {} items = Inr existing \<and>
     existing = {k. \<exists>r\<in>set items. \<exists>f. getitem2 r ''track_name'' ''find'' = Inr f \<and>
                                      hash_key f = Inr k} \<and>
     length appended = 1 \<and>
     (if appended = []
      then getitem (updated_catalog ''1.1'' 1
             [remastered_rule, deluxe_album_rule,
              album_rule ''Remove Deluxe Edition again'' ''^(.+) - Deluxe Edition$'']) ''rules''
           = Inr rules
      else \<exists>rs. rules = JList rs \<and>
             getitem (updated_catalog ''1.1'' 1
               [remastered_rule, deluxe_album_rule,
                album_rule ''Remove Deluxe Edition again'' ''^(.+) - Deluxe Edition$'']) ''rules''
             = Inr (JList (rs @ appended))) \<and>
     (\<forall>p\<in>set [track_rule ''Remove Remastered again'' ''^(.+) - Remastered$'',
               album_rule ''Remove Deluxe Edition again'' ''^(.+) - Deluxe Edition$'']. \<forall>key k.
        pattern_key p = Inr key \<and> hash_key key = Inr k \<and> k \<in> existing \<longrightarrow>
        p \<notin> set appended) \<and>
     (\<forall>p\<in>set [track_rule ''Remove Remastered again'' ''^(.+) - Remastered$'',
               album_rule ''Remove Deluxe Edition again'' ''^(.+) - Deluxe Edition$'']. \<forall>r\<in>set items. \<forall>f.
        getitem2 p ''track_name'' ''find'' = Inr f \<and>
        getitem2 r ''track_name'' ''find'' = Inr f \<longrightarrow>
        p \<notin> set appended)"
  by (rule dedup_on_track_find [OF album_prior_run])

text \<open>
  Claim C7, as the code has it. When a merge returns, every candidate has a key
  (\<^verbatim>\<open>None\<close> when it has neither field), and the appended rules are, in the order of the
  list, exactly the candidates whose key is truthy and not among the existing keys: a
  candidate is skipped when its key is absent, falsy (such as the empty string) or
  already known. The count is the number of appended rules and the names are theirs.
\<close>

theorem candidate_skip_or_append:
  assumes "merge_rules c patterns = Inr (c', n, names)"
  shows "\<exists>rules items existing appended.
           getitem c ''rules'' = Inr rules \<and> iter_items rules = Inr items \<and>
           existing_patterns {} items = Inr existing \<and>
           appended = filter (\<lambda>p. \<exists>key k. pattern_key p = Inr key \<and> truthy key \<and>
                                      hash_key key = Inr k \<and> k \<notin> existing) patterns \<and>
           (\<forall>p\<in>set patterns. \<exists>key. pattern_key p = Inr key) \<and>
           (\<forall>p\<in>set patterns.
              contains ''track_name'' p = Inr False \<and> contains ''album_name'' p = Inr False \<longrightarrow>
              p \<notin> set appended) \<and>
           (if appended = [] then c' = c
            else \<exists>rs. rules = JList rs \<and> getitem c' ''rules'' = Inr (JList (rs @ appended))) \<and>
           n = length appended \<and>
           map Inr names = map (\<lambda>p. getitem p ''name'') appended"
proof -
  from merge_rules_result [OF assms] obtain rules items ex where
    rules: "getitem c ''rules'' = Inr rules" and items: "iter_items rules = Inr items" and
    ex: "existing_patterns {} items = Inr ex" and
    n: "n = length (filter (adds ex) patterns)" and
    names: "map Inr names = map (\<lambda>p. getitem p ''name'') (filter (adds ex) patterns)" and
    c': "if n = 0 then c' = c
         else \<exists>rs. rules = JList rs \<and>
                getitem c' ''rules'' = Inr (JList (rs @ filter (adds ex) patterns))"
    by (auto split: if_splits)
  let ?new = "\<lambda>p. \<exists>key k. pattern_key p = Inr key \<and> truthy key \<and> hash_key key = Inr k \<and> k \<notin> ex"
  have eq: "filter (adds ex) patterns = filter ?new patterns"
    by (rule filter_cong) (auto simp: adds_iff)
  have keys: "\<forall>p\<in>set patterns. \<exists>key. pattern_key p = Inr key"
    using merge_rules_keys [OF assms] by blast
  have none: "\<forall>p\<in>set patterns.
      contains ''track_name'' p = Inr False \<and> contains ''album_name'' p = Inr False \<longrightarrow>
      p \<notin> set (filter ?new patterns)"
    by (auto simp: pattern_key_none)
  have tail: "if filter ?new patterns = [] then c' = c
              else \<exists>rs. rules = JList rs \<and>
                     getitem c' ''rules'' = Inr (JList (rs @ filter ?new patterns))"
    using n c' unfolding eq by (auto split: if_splits)
  from rules items ex keys none tail n names show ?thesis
    unfolding eq by blast
qed

theorem candidate_skip_or_append_witness:
  "\<exists>rules items existing appended.
     getitem (catalog ''1.0'' [remastered_rule]) ''rules'' = Inr rules \<and>
     iter_items rules = Inr items \<and>
     existing_patterns {} items = Inr existing \<and>
     appended = filter (\<lambda>p. \<exists>key k. pattern_key p = Inr key \<and> truthy key \<and>
                                hash_key key = Inr k \<and> k \<notin> existing)
                  [JDict [(''name'', JStr ''No pattern'')],
                   track_rule ''Remove Remastered again'' ''^(.+) - Remastered$'',
                   hd_rule] \<and>
     (\<forall>p\<in>set [JDict [(''name'', JStr ''No pattern'')],
               track_rule ''Remove Remastered again'' ''^(.+) - Remastered$'',
               hd_rule]. \<exists>key. pattern_key p = Inr key) \<and>
     (\<forall>p\<in>set [JDict [(''name'', JStr ''No pattern'')],
               track_rule ''Remove Remastered again'' ''^(.+) - Remastered$'',
               hd_rule].
        contains ''track_name'' p = Inr False \<and> contains ''album_name'' p = Inr False \<longrightarrow>
        p \<notin> set appended) \<and>
     (if appended = []
      then updated_catalog ''1.1'' 1 [remastered_rule, hd_rule] = catalog ''1.0'' [remastered_rule]
      else \<exists>rs. rules = JList rs \<and>
             getitem (updated_catalog ''1.1'' 1 [remastered_rule, hd_rule]) ''rules''
               = Inr (JList (rs @ appended))) \<and>
     1 = length appended \<and>
     map Inr [JStr ''Remove HD Remastered''] = map (\<lambda>p. getitem p ''name'') appended"
  by (rule candidate_skip_or_append [OF mixed_run])

text \<open>
  The claim as written skips a candidate only when its key is absent or already known.
  A candidate whose \<^verbatim>\<open>album_name.find\<close> is the empty string has a key, which no rule of
  the catalog has, and is skipped all the same.
\<close>

theorem empty_key_skipped_counterexample:
  "pattern_key (album_rule ''Remove nothing'' []) = Inr (JStr []) \<and>
   existing_patterns {} [remastered_rule] = Inr {KStr ''^(.+) - Remastered$''} \<and>
   hash_key (JStr []) = Inr (KStr []) \<and>
   KStr [] \<notin> {KStr ''^(.+) - Remastered$''} \<and>
   merge_rules (catalog ''1.0'' [remastered_rule]) [album_rule ''Remove nothing'' []]
     = Inr (catalog ''1.0'' [remastered_rule], 0, [])"
  by code_simp

text \<open>
  Claim C6, as the code has it. Two candidates of one list share a key that is truthy
  (for a string: not empty) and not among the existing keys. When the merge returns,
  both are among the appended rules, in their order, and the count is two more than
  the number of other candidates appended.
\<close>

theorem no_within_batch_dedup:
  assumes "merge_rules c (xs @ p # ys @ q # zs) = Inr (c', n, names)"
    and "getitem c ''rules'' = Inr rules" and "iter_items rules = Inr items"
    and "existing_patterns {} items = Inr existing"
    and "pattern_key p = Inr key" and "pattern_key q = Inr key"
    and "truthy key" and "hash_key key = Inr k" and "k \<notin> existing"
  shows "\<exists>rs ax ay az.
           rules = JList rs \<and>
           getitem c' ''rules'' = Inr (JList (rs @ ax @ p # ay @ q # az)) \<and>
           subseq ax xs \<and> subseq ay ys \<and> subseq az zs \<and>
           n = length ax + length ay + length az + 2"
proof -
  from merge_rules_result [OF assms(1)] assms(2-4) have
    n: "n = length (filter (adds existing) (xs @ p # ys @ q # zs))" and
    c': "if n = 0 then c' = c
         else \<exists>rs. rules = JList rs \<and>
                getitem c' ''rules''
                  = Inr (JList (rs @ filter (adds existing) (xs @ p # ys @ q # zs)))"
    by (auto split: if_splits)
  have p: "adds existing p" and q: "adds existing q"
    using assms(5-9) by (auto simp: adds_iff)
  let ?ax = "filter (adds existing) xs"
  let ?ay = "filter (adds existing) ys"
  let ?az = "filter (adds existing) zs"
  have app: "filter (adds existing) (xs @ p # ys @ q # zs) = ?ax @ p # ?ay @ q # ?az"
    using p q by simp
  from n app have count: "n = length ?ax + length ?ay + length ?az + 2" by simp
  with c' app obtain rs where "rules = JList rs"
    "getitem c' ''rules'' = Inr (JList (rs @ ?ax @ p # ?ay @ q # ?az))"
    by auto
  moreover have "subseq ?ax xs" "subseq ?ay ys" "subseq ?az zs" by simp_all
  ultimately show ?thesis using count by blast
qed

theorem no_within_batch_dedup_witness:
  "\<exists>rs ax ay az.
     JList [remastered_rule] = JList rs \<and>
     getitem (updated_catalog ''1.1'' 2
                [remastered_rule,
                 track_rule ''Remove HD Remastered, first'' ''^(.+) - HD Remastered$'',
                 track_rule ''Remove HD Remastered, second'' ''^(.+) - HD Remastered$'']) ''rules''
       = Inr (JList (rs @ ax @ track_rule ''Remove HD Remastered, first'' ''^(.+) - HD Remastered$''
                        # ay @ track_rule ''Remove HD Remastered, second'' ''^(.+) - HD Remastered$''
                        # az)) \<and>
     subseq ax [] \<and> subseq ay [] \<and> subseq az [] \<and>
     (2::nat) = length ax + length ay + length az + 2"
proof -
  have rules: "getitem (catalog ''1.0'' [remastered_rule]) ''rules'' = Inr (JList [remastered_rule])"
    by code_simp
  have items: "iter_items (JList [remastered_rule]) = Inr [remastered_rule]" by simp
  have existing: "existing_patterns {} [remastered_rule] = Inr {KStr ''^(.+) - Remastered$''}"
    by (simp add: scan_rule_def getitem2_def remastered_rule_def track_rule_def)
  have first: "pattern_key (track_rule ''Remove HD Remastered, first'' ''^(.+) - HD Remastered$'')
               = Inr (JStr ''^(.+) - HD Remastered$'')"
    by code_simp
  have second: "pattern_key (track_rule ''Remove HD Remastered, second'' ''^(.+) - HD Remastered$'')
               = Inr (JStr ''^(.+) - HD Remastered$'')"
    by code_simp
  have truthy: "truthy (JStr ''^(.+) - HD Remastered$'')" by simp
  have hash: "hash_key (JStr ''^(.+) - HD Remastered$'') = Inr (KStr ''^(.+) - HD Remastered$'')"
    by simp
  have new: "KStr ''^(.+) - HD Remastered$'' \<notin> {KStr ''^(.+) - Remastered$''}" by simp
  show ?thesis
    by (rule no_within_batch_dedup [OF same_key_run rules items existing first second truthy hash new])
qed

text \<open>
  The claim as written has no condition on the shared key but its absence from the
  existing keys. Two distinct candidates that share the empty string as key are both
  skipped.
\<close>

theorem empty_shared_key_counterexample:
  "track_rule ''First'' [] \<noteq> track_rule ''Second'' [] \<and>
   pattern_key (track_rule ''First'' []) = Inr (JStr []) \<and>
   pattern_key (track_rule ''Second'' []) = Inr (JStr []) \<and>
   existing_patterns {} [remastered_rule] = Inr {KStr ''^(.+) - Remastered$''} \<and>
   hash_key (JStr []) = Inr (KStr []) \<and>
   KStr [] \<notin> {KStr ''^(.+) - Remastered$''} \<and>
   merge_rules (catalog ''1.0'' [remastered_rule]) [track_rule ''First'' [], track_rule ''Second'' []]
     = Inr (catalog ''1.0'' [remastered_rule], 0, [])"
  by code_simp

subsection \<open>Running the script twice\<close>

text \<open>
  Claim C1 asks that a second run on the output of the first adds nothing. The first
  loop records only the \<^verbatim>\<open>track_name\<close> keys of the catalog, while the second loop also
  keys candidates by \<^verbatim>\<open>album_name\<close>; so the album rules that one run appends are not
  seen by the next. On a catalog with no rules the script adds its twelve candidates,
  and the next run adds the three album rules once more and saves a different file.
\<close>

theorem rerun_adds_album_rules_again:
  "added_count first_run = 12 \<and>
   added_count second_run = 3 \<and>
   added_names second_run =
     [JStr ''Remove Anniversary Edition from Album'', JStr ''Remove Deluxe Remaster Album'',
      JStr ''Remove Super Deluxe Edition Album''] \<and>
   file_after (file_after (Some (catalog ''1.0'' [])) first_run) second_run
     \<noteq> file_after (Some (catalog ''1.0'' [])) first_run"
  by code_simp

end
